theory Spec2Isabelle
  imports Complex_Main "HOL-Library.AList"
begin

section \<open>Python values, exceptions and dictionaries\<close>

text \<open>
  The simulator of \<^verbatim>\<open>mcs.py\<close> works on three dictionaries: the bag of variables
  (name to current value), the table of distribution specifications (name to a dictionary
  of parameters) and the registry of samplers. A Python dictionary keeps its keys in
  insertion order and \<^verbatim>\<open>refresh_bov\<close> walks the bag in that order, so a dictionary is an
  association list; \<^verbatim>\<open>d[k] = v\<close> replaces the entry of an existing key in place and appends
  a new key at the end, which is what \<open>AList.update\<close> does.

  float64 numbers are modelled as reals: rounding, infinities and overflow are outside
  the model. The one non-number a float result can be here, the NaN that numpy returns
  for the mean of an empty array, is a value of its own.
\<close>

datatype pyexn =
    TypeError
  | NameError
  | AttributeError
  | ZeroDivisionError
  | Exception string

datatype pyval = PNone | PNum real | PStr string | PBuiltins

type_synonym 'v pydict = "(string \<times> 'v) list"

definition dict_keys :: "'v pydict \<Rightarrow> string list" where
  "dict_keys d = map fst d"

definition dict_get :: "pyval pydict \<Rightarrow> string \<Rightarrow> pyval" where
  \<comment> \<open>\<^verbatim>\<open>d.get(k)\<close>: \<^verbatim>\<open>None\<close> for a key that is absent\<close>
  "dict_get d k = (case map_of d k of None \<Rightarrow> PNone | Some v \<Rightarrow> v)"

definition dict_set :: "'v pydict \<Rightarrow> string \<Rightarrow> 'v \<Rightarrow> 'v pydict" where
  \<comment> \<open>\<^verbatim>\<open>d[k] = v\<close>\<close>
  "dict_set d k v = AList.update k v d"

section \<open>The random generator\<close>

text \<open>
  \<^verbatim>\<open>self.rng = default_rng()\<close> is numpy's generator, which is not part of the repository.
  It is a parameter of the model: a function that, given the name of a method of
  \<^verbatim>\<open>numpy.random.Generator\<close>, the arguments bound to that method's parameters (in the order
  of its signature, \<open>None\<close> for a parameter the call does not supply) and the state of the
  generator, returns a draw or raises, and the next state.

  What the model does fix is the binding of a call's arguments to the parameters of the
  method, which Python does before the method runs: the signatures are those documented
  for \<^verbatim>\<open>numpy.random.Generator\<close>, and a keyword that is not a parameter of the method is a
  \<^verbatim>\<open>TypeError\<close>.
\<close>

type_synonym 'g generator = "string \<Rightarrow> pyval option list \<Rightarrow> 'g \<Rightarrow> (pyexn + real) \<times> 'g"

definition np_signature :: "string \<Rightarrow> string list option" where
  "np_signature = map_of
     [(''normal'', [''loc'', ''scale'', ''size'']),
      (''wald'', [''mean'', ''scale'', ''size'']),
      (''poisson'', [''lam'', ''size'']),
      (''binomial'', [''n'', ''p'', ''size'']),
      (''uniform'', [''low'', ''high'', ''size'']),
      (''chisquare'', [''df'', ''size'']),
      (''weibull'', [''a'', ''size'']),
      (''gamma'', [''shape'', ''scale'', ''size'']),
      (''lognormal'', [''mean'', ''sigma'', ''size'']),
      (''exponential'', [''scale'', ''size'']),
      (''pareto'', [''a'', ''size''])]"

fun bind_args :: "string list \<Rightarrow> pyval list \<Rightarrow> pyval pydict \<Rightarrow> pyval option list" where
  "bind_args [] pos kws = []"
| "bind_args (p # ps) (a # as) kws = Some a # bind_args ps as kws"
| "bind_args (p # ps) [] kws = map_of kws p # bind_args ps [] kws"

definition rng_call ::
  "'g generator \<Rightarrow> string \<Rightarrow> pyval list \<Rightarrow> pyval pydict \<Rightarrow> 'g \<Rightarrow> (pyexn + real) \<times> 'g" where
  \<comment> \<open>\<^verbatim>\<open>self.rng.method(*pos, **kws)\<close>\<close>
  "rng_call rng method pos kws g =
     (case np_signature method of
        None \<Rightarrow> (Inl AttributeError, g)
      | Some params \<Rightarrow>
          if length params < length pos then (Inl TypeError, g)
          else if \<not> list_all (\<lambda>k. k \<in> set params) (dict_keys kws) then (Inl TypeError, g)
          else if list_ex (\<lambda>k. k \<in> set (take (length pos) params)) (dict_keys kws)
            then (Inl TypeError, g)
          else rng method (bind_args params pos kws) g)"

section \<open>The samplers and their registry\<close>

type_synonym 'g sampler = "'g generator \<Rightarrow> pyval pydict \<Rightarrow> 'g \<Rightarrow> (pyexn + real) \<times> 'g"

definition random_sampler_normal :: "'g sampler" where
  "random_sampler_normal rng pdf g =
     rng_call rng ''normal'' []
       [(''loc'', dict_get pdf ''mean''), (''scale'', dict_get pdf ''sd''), (''size'', PNone)] g"

definition random_sampler_wald :: "'g sampler" where
  "random_sampler_wald rng pdf g =
     rng_call rng ''wald'' []
       [(''loc'', dict_get pdf ''mean''), (''scale'', dict_get pdf ''scale''), (''size'', PNone)] g"

definition random_sampler_poisson :: "'g sampler" where
  "random_sampler_poisson rng pdf g =
     rng_call rng ''poisson'' [] [(''loc'', dict_get pdf ''lambda''), (''size'', PNone)] g"

definition random_sampler_binomial :: "'g sampler" where
  "random_sampler_binomial rng pdf g =
     rng_call rng ''binomial'' [dict_get pdf ''numtrials'', dict_get pdf ''probsuccess'']
       [(''size'', PNone)] g"

definition random_sampler_uniform :: "'g sampler" where
  "random_sampler_uniform rng pdf g =
     rng_call rng ''uniform'' [dict_get pdf ''low'', dict_get pdf ''high''] [(''size'', PNone)] g"

definition random_sampler_chisquare :: "'g sampler" where
  "random_sampler_chisquare rng pdf g =
     rng_call rng ''chisquare'' [dict_get pdf ''degfreedom''] [(''size'', PNone)] g"

definition random_sampler_weibull :: "'g sampler" where
  "random_sampler_weibull rng pdf g =
     rng_call rng ''weibull'' [dict_get pdf ''shape''] [(''size'', PNone)] g"

definition random_sampler_gamma :: "'g sampler" where
  "random_sampler_gamma rng pdf g =
     rng_call rng ''gamma'' [dict_get pdf ''shape'', dict_get pdf ''scale''] [(''size'', PNone)] g"

definition random_sampler_lognormal :: "'g sampler" where
  "random_sampler_lognormal rng pdf g =
     rng_call rng ''lognormal'' [dict_get pdf ''mean'', dict_get pdf ''sigma'']
       [(''size'', PNone)] g"

definition random_sampler_exponential :: "'g sampler" where
  "random_sampler_exponential rng pdf g =
     rng_call rng ''exponential'' [dict_get pdf ''scale''] [(''size'', PNone)] g"

definition random_sampler_pareto :: "'g sampler" where
  "random_sampler_pareto rng pdf g =
     rng_call rng ''pareto'' [dict_get pdf ''shape''] [(''size'', PNone)] g"

definition samplers :: "'g sampler pydict" where
  "samplers =
     [(''normal'', random_sampler_normal),
      (''poisson'', random_sampler_poisson),
      (''binomial'', random_sampler_binomial),
      (''lognormal'', random_sampler_lognormal),
      (''pareto'', random_sampler_pareto),
      (''exponential'', random_sampler_exponential),
      (''gamma'', random_sampler_gamma),
      (''weibull'', random_sampler_weibull),
      (''chisquare'', random_sampler_chisquare),
      (''uniform'', random_sampler_uniform),
      (''wald'', random_sampler_wald)]"

section \<open>Drawing one sample\<close>

text \<open>
  \<open>get_random_sample_try\<close> is the body of the \<^verbatim>\<open>try\<close> block of \<^verbatim>\<open>get_random_sample\<close>: the
  lookup of the family name, the \<^verbatim>\<open>raise\<close> for a name that is \<^verbatim>\<open>None\<close> or has no sampler,
  and the call of the sampler. \<open>get_random_sample\<close> adds the handler: on any exception
  the message is printed and \<^verbatim>\<open>rand_sample\<close> still holds its initial value 0.
\<close>

definition get_random_sample_try :: "'g sampler" where
  "get_random_sample_try rng pdf g =
     (case dict_get pdf ''name'' of
        PStr distribution \<Rightarrow>
          (case map_of samplers distribution of
             None \<Rightarrow> (Inl (Exception (''Sampler for '' @ distribution @ '' not implemented'')), g)
           | Some sampler \<Rightarrow> sampler rng pdf g)
      | _ \<Rightarrow> (Inl (Exception ''Sampler not implemented''), g))"

definition get_random_sample ::
  "'g generator \<Rightarrow> pyval pydict \<Rightarrow> 'g \<Rightarrow> (pyexn + pyval) \<times> 'g" where
  "get_random_sample rng pdf g =
     (case get_random_sample_try rng pdf g of
        (Inl e, g') \<Rightarrow> (Inr (PNum 0), g')
      | (Inr x, g') \<Rightarrow> (Inr (PNum x), g'))"

section \<open>Refreshing the bag of variables\<close>

text \<open>
  \<open>refresh_loop\<close> is the \<^verbatim>\<open>for key in self.bov.keys()\<close> loop. The bag is mutated in place,
  so an exception leaves the bag as it is at that moment: the loop returns the exception
  (if any) together with the bag and the generator. \<open>refresh_bov\<close> is the loop inside its
  \<^verbatim>\<open>try\<close>: \<^verbatim>\<open>False\<close> after an exception, \<^verbatim>\<open>True\<close> otherwise.
\<close>

fun refresh_loop ::
  "'g generator \<Rightarrow> pyval pydict pydict \<Rightarrow> string list \<Rightarrow> pyval pydict \<Rightarrow> 'g
     \<Rightarrow> pyexn option \<times> pyval pydict \<times> 'g" where
  "refresh_loop rng variable_pdfs [] bov g = (None, bov, g)"
| "refresh_loop rng variable_pdfs (key # keys) bov g =
     (case map_of variable_pdfs key of
        None \<Rightarrow> refresh_loop rng variable_pdfs keys bov g
      | Some pdf \<Rightarrow>
          (case get_random_sample rng pdf g of
             (Inl e, g') \<Rightarrow> (Some e, bov, g')
           | (Inr rand_sample, g') \<Rightarrow>
               refresh_loop rng variable_pdfs keys (dict_set bov key rand_sample) g'))"

definition refresh_bov ::
  "'g generator \<Rightarrow> pyval pydict pydict \<Rightarrow> pyval pydict \<Rightarrow> 'g \<Rightarrow> bool \<times> pyval pydict \<times> 'g" where
  "refresh_bov rng variable_pdfs bov g =
     (case refresh_loop rng variable_pdfs (dict_keys bov) bov g of
        (None, bov', g') \<Rightarrow> (True, bov', g')
      | (Some e, bov', g') \<Rightarrow> (False, bov', g'))"

section \<open>The simulation loop\<close>

text \<open>
  \<^verbatim>\<open>eval(self.transfer_equation, self.bov)\<close> hands the bag to Python's evaluator as the
  dictionary of globals. The evaluator is a parameter \<open>ev\<close> of the model: it maps the
  formula and the globals to a number or to an exception. What \<^verbatim>\<open>eval\<close> itself does to
  the dictionary is modelled: before the expression is parsed, a globals dictionary with
  no key \<^verbatim>\<open>__builtins__\<close> gets one, bound to the module of built-ins. The formula is taken
  to be an expression with no effect of its own on the bag.
\<close>

definition eval_globals :: "pyval pydict \<Rightarrow> pyval pydict" where
  "eval_globals bov =
     (if ''__builtins__'' \<in> set (dict_keys bov) then bov
      else dict_set bov ''__builtins__'' PBuiltins)"

definition py_eval ::
  "('f \<Rightarrow> pyval pydict \<Rightarrow> pyexn + real) \<Rightarrow> 'f \<Rightarrow> pyval pydict \<Rightarrow> (pyexn + real) \<times> pyval pydict" where
  "py_eval ev te bov = (ev te (eval_globals bov), eval_globals bov)"

fun simulate_loop ::
  "'g generator \<Rightarrow> ('f \<Rightarrow> pyval pydict \<Rightarrow> pyexn + real) \<Rightarrow> 'f \<Rightarrow> pyval pydict pydict \<Rightarrow> nat
     \<Rightarrow> pyval pydict \<Rightarrow> 'g \<Rightarrow> real list \<Rightarrow> pyexn + (real list \<times> pyval pydict \<times> 'g)" where
  "simulate_loop rng ev te variable_pdfs 0 bov g vals = Inr (vals, bov, g)"
| "simulate_loop rng ev te variable_pdfs (Suc k) bov g vals =
     (case refresh_bov rng variable_pdfs bov g of
        (ok, bov1, g1) \<Rightarrow>
          (case py_eval ev te bov1 of
             (Inl e, bov2) \<Rightarrow> Inl e
           | (Inr te_result, bov2) \<Rightarrow>
               simulate_loop rng ev te variable_pdfs k bov2 g1 (vals @ [te_result])))"

text \<open>
  \<^verbatim>\<open>values_np.mean()\<close> and \<^verbatim>\<open>values_np.std()\<close> with numpy's defaults: the standard deviation
  is the square root of the mean of the squared absolute deviations from the mean, and
  both are NaN on an empty array.
\<close>

datatype npfloat = NaN | Fin real

definition np_mean :: "real list \<Rightarrow> npfloat" where
  "np_mean xs = (if xs = [] then NaN else Fin (sum_list xs / real (length xs)))"

definition np_std :: "real list \<Rightarrow> npfloat" where
  "np_std xs =
     (if xs = [] then NaN
      else let m = sum_list xs / real (length xs)
           in Fin (sqrt (sum_list (map (\<lambda>x. \<bar>x - m\<bar> ^ 2) xs) / real (length xs))))"

record simulation_result =
  mean :: npfloat
  sd :: npfloat

definition simulate ::
  "'g generator \<Rightarrow> ('f \<Rightarrow> pyval pydict \<Rightarrow> pyexn + real) \<Rightarrow> 'f \<Rightarrow> pyval pydict
     \<Rightarrow> pyval pydict pydict \<Rightarrow> int \<Rightarrow> 'g \<Rightarrow> pyexn + simulation_result" where
  "simulate rng ev transfer_equation bov variable_pdfs num_iterations g =
     (case simulate_loop rng ev transfer_equation variable_pdfs (nat num_iterations) bov g [] of
        Inl e \<Rightarrow> Inl e
      | Inr (vals, bov', g') \<Rightarrow> Inr \<lparr>mean = np_mean vals, sd = np_std vals\<rparr>)"

section \<open>A formula evaluator for arithmetic expressions\<close>

text \<open>
  The arithmetic fragment of Python expressions over variables bound to numbers, such as
  the example formula \<^verbatim>\<open>unit_cost_km * total_road_length\<close> of \<^verbatim>\<open>mcs.py\<close>. A name with no
  binding in the globals (and that is not a built-in) raises \<^verbatim>\<open>NameError\<close>; operands are
  evaluated from left to right.
\<close>

datatype formula =
    Const real
  | Name string
  | Add formula formula
  | Sub formula formula
  | Mul formula formula
  | Div formula formula

fun eval_formula :: "formula \<Rightarrow> pyval pydict \<Rightarrow> pyexn + real" where
  "eval_formula (Const c) env = Inr c"
| "eval_formula (Name x) env =
     (case map_of env x of
        None \<Rightarrow> Inl NameError
      | Some (PNum r) \<Rightarrow> Inr r
      | Some _ \<Rightarrow> Inl TypeError)"
| "eval_formula (Add a b) env =
     (case eval_formula a env of Inl e \<Rightarrow> Inl e
      | Inr x \<Rightarrow> (case eval_formula b env of Inl e \<Rightarrow> Inl e | Inr y \<Rightarrow> Inr (x + y)))"
| "eval_formula (Sub a b) env =
     (case eval_formula a env of Inl e \<Rightarrow> Inl e
      | Inr x \<Rightarrow> (case eval_formula b env of Inl e \<Rightarrow> Inl e | Inr y \<Rightarrow> Inr (x - y)))"
| "eval_formula (Mul a b) env =
     (case eval_formula a env of Inl e \<Rightarrow> Inl e
      | Inr x \<Rightarrow> (case eval_formula b env of Inl e \<Rightarrow> Inl e | Inr y \<Rightarrow> Inr (x * y)))"
| "eval_formula (Div a b) env =
     (case eval_formula a env of Inl e \<Rightarrow> Inl e
      | Inr x \<Rightarrow>
          (case eval_formula b env of Inl e \<Rightarrow> Inl e
           | Inr y \<Rightarrow> if y = 0 then Inl ZeroDivisionError else Inr (x / y)))"

text \<open>
  The state of the run between two iterations is the bag and the generator. One pass of
  the loop body takes it through \<open>refresh_bov\<close> and then through the insertion that
  \<^verbatim>\<open>eval\<close> makes; \<open>globals_at i\<close> is the dictionary that the evaluator sees in iteration
  \<open>i\<close> (counted from 0).
\<close>

definition iteration ::
  "'g generator \<Rightarrow> pyval pydict pydict \<Rightarrow> pyval pydict \<times> 'g \<Rightarrow> pyval pydict \<times> 'g" where
  "iteration rng variable_pdfs s =
     (case refresh_bov rng variable_pdfs (fst s) (snd s) of
        (ok, bov1, g1) \<Rightarrow> (eval_globals bov1, g1))"

definition globals_at ::
  "'g generator \<Rightarrow> pyval pydict pydict \<Rightarrow> pyval pydict \<Rightarrow> 'g \<Rightarrow> nat \<Rightarrow> pyval pydict" where
  "globals_at rng variable_pdfs bov g i = fst ((iteration rng variable_pdfs ^^ Suc i) (bov, g))"

section \<open>Reference definitions and example inputs\<close>




text \<open>
  The keys that the docstring of each sampler calls mandatory in the dictionary of a
  distribution of its family.
\<close>

definition required_params :: "string list pydict" where
  "required_params =
     [(''normal'', [''mean'', ''sd'']),
      (''wald'', [''mean'', ''scale'']),
      (''poisson'', [''lambda'']),
      (''binomial'', [''numtrials'', ''probsuccess'']),
      (''uniform'', [''low'', ''high'']),
      (''chisquare'', [''degfreedom'']),
      (''weibull'', [''shape'']),
      (''gamma'', [''shape'', ''scale'']),
      (''lognormal'', [''mean'', ''sigma'']),
      (''exponential'', [''scale'']),
      (''pareto'', [''shape''])]"

text \<open>
  Two generators to run the model on. The draws of \<open>counter_rng\<close> are its successive
  states; \<open>strict_rng\<close> also raises \<^verbatim>\<open>TypeError\<close> when a distribution parameter (any
  argument but the last, \<^verbatim>\<open>size\<close>) is \<^verbatim>\<open>None\<close>.
\<close>

definition counter_rng :: "nat generator" where
  "counter_rng method args g = (Inr (real g), g + 2)"

definition strict_rng :: "nat generator" where
  "strict_rng method args g =
     (if list_ex (\<lambda>a. a = Some PNone) (butlast args) then (Inl TypeError, g)
      else (Inr (real g), g + 2))"

definition uniform_pdf :: "pyval pydict" where
  "uniform_pdf = [(''name'', PStr ''uniform''), (''low'', PNum 0), (''high'', PNum 1)]"

definition unknown_pdf :: "pyval pydict" where
  "unknown_pdf = [(''name'', PStr ''triangular''), (''low'', PNum 0), (''high'', PNum 1)]"


section \<open>Sampling never raises\<close>

lemma get_random_sample_total:
  "\<exists>v. fst (get_random_sample rng pdf g) = Inr v"
  by (auto simp: get_random_sample_def split: prod.splits sum.splits)

lemma get_random_sample_cases:
  obtains v g' where "get_random_sample rng pdf g = (Inr v, g')"
  by (cases "get_random_sample rng pdf g") (use get_random_sample_total[of rng pdf g] in auto)

lemma get_random_sample_degraded:
  "isl (fst (get_random_sample_try rng pdf g)) \<Longrightarrow>
   get_random_sample rng pdf g = (Inr (PNum 0), snd (get_random_sample_try rng pdf g))"
  by (auto simp: get_random_sample_def isl_def split: prod.splits sum.splits)

section \<open>The refresh loop\<close>

lemma dict_keys_set_present:
  "k \<in> set (dict_keys d) \<Longrightarrow> dict_keys (dict_set d k v) = dict_keys d"
  by (simp add: dict_keys_def dict_set_def update_keys)

lemma map_of_dict_set:
  "map_of (dict_set d k v) = (map_of d)(k \<mapsto> v)"
  by (simp add: dict_set_def update_conv')

lemma refresh_loop_no_exn:
  "fst (refresh_loop rng pdfs keys bov g) = None"
proof (induction keys arbitrary: bov g)
  case Nil
  show ?case by simp
next
  case (Cons key keys)
  show ?case
  proof (cases "map_of pdfs key")
    case None
    then show ?thesis using Cons.IH by simp
  next
    case (Some pdf)
    obtain v g' where "get_random_sample rng pdf g = (Inr v, g')"
      by (rule get_random_sample_cases)
    then show ?thesis using Some Cons.IH by simp
  qed
qed

lemma refresh_bov_eq:
  "refresh_bov rng pdfs bov g = (True, snd (refresh_loop rng pdfs (dict_keys bov) bov g))"
  using refresh_loop_no_exn[of rng pdfs "dict_keys bov" bov g]
  by (cases "refresh_loop rng pdfs (dict_keys bov) bov g") (simp add: refresh_bov_def)

lemma refresh_loop_keys:
  "set keys \<subseteq> set (dict_keys bov) \<Longrightarrow>
   dict_keys (fst (snd (refresh_loop rng pdfs keys bov g))) = dict_keys bov"
proof (induction keys arbitrary: bov g)
  case Nil
  show ?case by simp
next
  case (Cons key keys)
  show ?case
  proof (cases "map_of pdfs key")
    case None
    then show ?thesis using Cons by simp
  next
    case (Some pdf)
    obtain v g' where s: "get_random_sample rng pdf g = (Inr v, g')"
      by (rule get_random_sample_cases)
    have k: "dict_keys (dict_set bov key v) = dict_keys bov"
      using Cons.prems by (simp add: dict_keys_set_present)
    have "dict_keys (fst (snd (refresh_loop rng pdfs keys (dict_set bov key v) g')))
            = dict_keys (dict_set bov key v)"
      using Cons.prems k by (intro Cons.IH) simp
    then show ?thesis using Some s k by simp
  qed
qed



text \<open>
  What holds of every value that \<open>get_random_sample\<close> can return for the distribution of
  a key holds of the bag's entry for that key once the loop has visited it.
\<close>

lemma refresh_loop_sampled:
  assumes "map_of pdfs k = Some pdf"
    and "\<And>gk v g'. get_random_sample rng pdf gk = (Inr v, g') \<Longrightarrow> P v"
  shows "k \<in> set keys \<or> (\<exists>v. map_of bov k = Some v \<and> P v) \<Longrightarrow>
     \<exists>v. map_of (fst (snd (refresh_loop rng pdfs keys bov g))) k = Some v \<and> P v"
proof (induction keys arbitrary: bov g)
  case Nil
  then show ?case by simp
next
  case (Cons key keys)
  show ?case
  proof (cases "map_of pdfs key")
    case None
    then have "key \<noteq> k" using assms(1) by auto
    then show ?thesis using None Cons by simp
  next
    case (Some pdf')
    obtain v g' where s: "get_random_sample rng pdf' g = (Inr v, g')"
      by (rule get_random_sample_cases)
    have "k \<in> set keys \<or> (\<exists>w. map_of (dict_set bov key v) k = Some w \<and> P w)"
    proof (cases "key = k")
      case True
      then have "pdf' = pdf" using Some assms(1) by simp
      then have "P v" using s assms(2) by blast
      then show ?thesis using True by (simp add: map_of_dict_set)
    next
      case False
      then show ?thesis using Cons.prems by (auto simp: map_of_dict_set)
    qed
    from Cons.IH[OF this, of g'] show ?thesis using Some s by simp
  qed
qed




lemma refresh_bov_collapse:
  "refresh_bov rng pdfs bov g =
     (True, fst (snd (refresh_bov rng pdfs bov g)), snd (snd (refresh_bov rng pdfs bov g)))"
  by (simp add: refresh_bov_eq)

lemma refresh_bov_keys:
  "dict_keys (fst (snd (refresh_bov rng pdfs bov g))) = dict_keys bov"
  by (simp add: refresh_bov_eq refresh_loop_keys)

lemma refresh_bov_sampled:
  assumes "k \<in> set (dict_keys bov)" "map_of pdfs k = Some pdf"
  shows "\<exists>gk v. fst (get_random_sample rng pdf gk) = Inr v
           \<and> map_of (fst (snd (refresh_bov rng pdfs bov g))) k = Some v"
proof -
  let ?r = "refresh_loop rng pdfs (dict_keys bov) bov g"
  have "\<exists>v. map_of (fst (snd ?r)) k = Some v
          \<and> (\<exists>gk. fst (get_random_sample rng pdf gk) = Inr v)"
  proof (rule refresh_loop_sampled[OF assms(2)])
    show "\<exists>gk. fst (get_random_sample rng pdf gk) = Inr v"
      if "get_random_sample rng pdf gk = (Inr v, g')" for gk v g'
      using that by (intro exI[of _ gk]) simp
    show "k \<in> set (dict_keys bov)
        \<or> (\<exists>v. map_of bov k = Some v \<and> (\<exists>gk. fst (get_random_sample rng pdf gk) = Inr v))"
      using assms(1) by simp
  qed
  then show ?thesis by (auto simp: refresh_bov_eq)
qed

lemma refresh_bov_zero:
  assumes "k \<in> set (dict_keys bov)" "map_of pdfs k = Some pdf"
    and "\<And>gk. fst (get_random_sample rng pdf gk) = Inr (PNum 0)"
  shows "map_of (fst (snd (refresh_bov rng pdfs bov g))) k = Some (PNum 0)"
proof -
  let ?r = "refresh_loop rng pdfs (dict_keys bov) bov g"
  have "\<exists>v. map_of (fst (snd ?r)) k = Some v \<and> v = PNum 0"
  proof (rule refresh_loop_sampled[OF assms(2)])
    show "v = PNum 0" if "get_random_sample rng pdf gk = (Inr v, g')" for gk v g'
      using that assms(3)[of gk] by simp
    show "k \<in> set (dict_keys bov) \<or> (\<exists>v. map_of bov k = Some v \<and> v = PNum 0)"
      using assms(1) by simp
  qed
  then show ?thesis by (simp add: refresh_bov_eq)
qed

section \<open>The simulation loop, iteration by iteration\<close>

lemma simulate_loop_step:
  "simulate_loop rng ev te pdfs (Suc k) bov g vals =
     (case ev te (fst (iteration rng pdfs (bov, g))) of
        Inl e \<Rightarrow> Inl e
      | Inr r \<Rightarrow> simulate_loop rng ev te pdfs k (fst (iteration rng pdfs (bov, g)))
                  (snd (iteration rng pdfs (bov, g))) (vals @ [r]))"
  by (simp add: iteration_def py_eval_def split: prod.splits sum.splits)

lemma globals_at_0: "globals_at rng pdfs bov g 0 = fst (iteration rng pdfs (bov, g))"
  by (simp add: globals_at_def)

lemma globals_at_Suc:
  "globals_at rng pdfs bov g (Suc i) =
     globals_at rng pdfs (fst (iteration rng pdfs (bov, g))) (snd (iteration rng pdfs (bov, g))) i"
  unfolding globals_at_def by (simp add: funpow_swap1)

lemma simulate_loop_ok:
  "(\<And>i. i < n \<Longrightarrow> \<not> isl (ev te (globals_at rng pdfs bov g i))) \<Longrightarrow>
   simulate_loop rng ev te pdfs n bov g vals =
     Inr (vals @ map (\<lambda>i. projr (ev te (globals_at rng pdfs bov g i))) [0..<n],
          (iteration rng pdfs ^^ n) (bov, g))"
proof (induction n arbitrary: bov g vals)
  case 0
  show ?case by simp
next
  case (Suc n)
  let ?s = "iteration rng pdfs (bov, g)"
  from Suc.prems[of 0] obtain r where r: "ev te (fst ?s) = Inr r"
    by (cases "ev te (fst ?s)") (auto simp: globals_at_0)
  have later: "\<And>i. i < n \<Longrightarrow> \<not> isl (ev te (globals_at rng pdfs (fst ?s) (snd ?s) i))"
    using Suc.prems[of "Suc _"] by (simp add: globals_at_Suc)
  have "simulate_loop rng ev te pdfs (Suc n) bov g vals =
          simulate_loop rng ev te pdfs n (fst ?s) (snd ?s) (vals @ [r])"
    using r by (simp only: simulate_loop_step sum.case)
  also have "\<dots> =
      Inr ((vals @ [r]) @ map (\<lambda>i. projr (ev te (globals_at rng pdfs (fst ?s) (snd ?s) i))) [0..<n],
           (iteration rng pdfs ^^ n) (fst ?s, snd ?s))"
    by (rule Suc.IH[OF later])
  also have "\<dots> =
      Inr (vals @ map (\<lambda>i. projr (ev te (globals_at rng pdfs bov g i))) [0..<Suc n],
           (iteration rng pdfs ^^ Suc n) (bov, g))"
    using r by (simp only: map_upt_Suc globals_at_Suc globals_at_0 funpow_Suc_right o_apply
                    prod.collapse sum.sel append_assoc append_Cons append_Nil)
  finally show ?case .
qed

lemma simulate_loop_fail:
  "i < n \<Longrightarrow> ev te (globals_at rng pdfs bov g i) = Inl e \<Longrightarrow>
   (\<And>j. j < i \<Longrightarrow> \<not> isl (ev te (globals_at rng pdfs bov g j))) \<Longrightarrow>
   simulate_loop rng ev te pdfs n bov g vals = Inl e"
proof (induction n arbitrary: bov g vals i)
  case 0
  then show ?case by simp
next
  case (Suc n)
  let ?s = "iteration rng pdfs (bov, g)"
  show ?case
  proof (cases i)
    case 0
    then have "ev te (fst ?s) = Inl e" using Suc.prems(2) by (simp add: globals_at_0)
    then show ?thesis by (simp only: simulate_loop_step sum.case)
  next
    case (Suc i')
    from Suc.prems(3)[of 0] Suc obtain r where r: "ev te (fst ?s) = Inr r"
      by (cases "ev te (fst ?s)") (auto simp: globals_at_0)
    have a: "i' < n" using Suc Suc.prems(1) by simp
    have b: "ev te (globals_at rng pdfs (fst ?s) (snd ?s) i') = Inl e"
      using Suc.prems(2) Suc by (simp add: globals_at_Suc)
    have c: "\<And>j. j < i' \<Longrightarrow> \<not> isl (ev te (globals_at rng pdfs (fst ?s) (snd ?s) j))"
      using Suc.prems(3)[of "Suc _"] Suc by (simp add: globals_at_Suc)
    have "simulate_loop rng ev te pdfs (Suc n) bov g vals =
          simulate_loop rng ev te pdfs n (fst ?s) (snd ?s) (vals @ [r])"
      using r by (simp only: simulate_loop_step sum.case)
    also have "\<dots> = Inl e" by (rule Suc.IH[OF a b c])
    finally show ?thesis .
  qed
qed

lemma first_failure:
  assumes "isl (ev te (globals_at rng pdfs bov g i))"
  shows "\<exists>j e. j \<le> i \<and> ev te (globals_at rng pdfs bov g j) = Inl e
            \<and> (\<forall>j'<j. \<not> isl (ev te (globals_at rng pdfs bov g j')))"
proof -
  define P where "P j = isl (ev te (globals_at rng pdfs bov g j))" for j
  define j where "j = (LEAST j. P j)"
  have Pi: "P i" using assms by (simp add: P_def)
  have "P j" unfolding j_def using Pi by (rule LeastI)
  then obtain e where "ev te (globals_at rng pdfs bov g j) = Inl e"
    by (auto simp: P_def isl_def)
  moreover have "j \<le> i" unfolding j_def using Pi by (rule Least_le)
  moreover have "\<forall>j'<j. \<not> P j'" unfolding j_def using not_less_Least by blast
  ultimately show ?thesis unfolding P_def by blast
qed


lemma simulate_loop_raises:
  assumes "simulate_loop rng ev te pdfs n bov g vals = Inl e"
  shows "\<exists>i<n. ev te (globals_at rng pdfs bov g i) = Inl e"
proof -
  have "\<exists>i<n. isl (ev te (globals_at rng pdfs bov g i))"
  proof (rule ccontr)
    assume "\<not> ?thesis"
    then have "\<And>i. i < n \<Longrightarrow> \<not> isl (ev te (globals_at rng pdfs bov g i))" by blast
    then have "simulate_loop rng ev te pdfs n bov g vals =
        Inr (vals @ map (\<lambda>i. projr (ev te (globals_at rng pdfs bov g i))) [0..<n],
             (iteration rng pdfs ^^ n) (bov, g))"
      by (rule simulate_loop_ok)
    then show False using assms by simp
  qed
  then obtain i where i: "i < n" "isl (ev te (globals_at rng pdfs bov g i))" by blast
  then obtain j e' where j: "j \<le> i" "ev te (globals_at rng pdfs bov g j) = Inl e'"
      "\<forall>j'<j. \<not> isl (ev te (globals_at rng pdfs bov g j'))"
    using first_failure[of ev te rng pdfs bov g i] by blast
  have jn: "j < n" using j(1) i(1) by simp
  then have "simulate_loop rng ev te pdfs n bov g vals = Inl e'"
    using j(2,3) by (intro simulate_loop_fail[of j]) auto
  then have "e' = e" using assms by simp
  then show ?thesis using jn j(2) by blast
qed

section \<open>The example inputs, evaluated\<close>

lemma sample_uniform_counter:
  "get_random_sample counter_rng uniform_pdf g = (Inr (PNum (real g)), g + 2)"
  by (simp add: get_random_sample_def get_random_sample_try_def uniform_pdf_def dict_get_def
      samplers_def random_sampler_uniform_def rng_call_def np_signature_def dict_keys_def
      counter_rng_def)

lemma try_unknown:
  "get_random_sample_try rng unknown_pdf g =
     (Inl (Exception ''Sampler for triangular not implemented''), g)"
  by (simp add: get_random_sample_try_def unknown_pdf_def dict_get_def samplers_def)

lemma sample_unknown:
  "get_random_sample rng unknown_pdf g = (Inr (PNum 0), g)"
  by (simp add: get_random_sample_def try_unknown)

section \<open>Claims about the refresh of the bag\<close>



text \<open>
  Claim C3 says that an exception raised while a variable is resolved or sampled makes
  \<open>refresh_bov\<close> abandon the remaining variables and return \<^verbatim>\<open>False\<close>. It does not: the
  exception is raised and caught inside \<open>get_random_sample\<close>, which returns 0. Here the
  family of \<open>a\<close> has no sampler, the \<^verbatim>\<open>try\<close> block raises, and yet \<open>b\<close>, which comes after
  \<open>a\<close>, is sampled (the generator moves from 3 to 5) and the refresh reports \<^verbatim>\<open>True\<close>.
\<close>

theorem refresh_bov_abort_counterexample:
  "get_random_sample_try counter_rng unknown_pdf 3
     = (Inl (Exception ''Sampler for triangular not implemented''), 3)
   \<and> refresh_bov counter_rng [(''a'', unknown_pdf), (''b'', uniform_pdf)]
        [(''a'', PNum 5), (''b'', PNum 7)] 3
     = (True, [(''a'', PNum 0), (''b'', PNum 3)], 5)"
  by (simp add: try_unknown refresh_bov_def dict_keys_def dict_set_def sample_unknown
      sample_uniform_counter)

text \<open>
  Claim C3, as the code has it. When the \<^verbatim>\<open>try\<close> block of \<open>get_random_sample\<close> raises
  for the distribution of a bag key, \<open>refresh_bov\<close> still returns \<^verbatim>\<open>True\<close>: the entry of
  that key is overwritten with 0, the keys of the bag are kept, and every bag key with a
  distribution, before or after the failing one, holds a value returned by
  \<open>get_random_sample\<close>.
\<close>

theorem refresh_bov_swallows:
  assumes "k \<in> set (dict_keys bov)" "map_of pdfs k = Some pdf"
    and "\<forall>gk. isl (fst (get_random_sample_try rng pdf gk))"
  shows "\<exists>bov' g'. refresh_bov rng pdfs bov g = (True, bov', g')
           \<and> map_of bov' k = Some (PNum 0)
           \<and> dict_keys bov' = dict_keys bov
           \<and> (\<forall>k' pdf'. k' \<in> set (dict_keys bov) \<and> map_of pdfs k' = Some pdf' \<longrightarrow>
                 (\<exists>gk v. fst (get_random_sample rng pdf' gk) = Inr v \<and> map_of bov' k' = Some v))"
proof -
  let ?b = "fst (snd (refresh_bov rng pdfs bov g))"
  have z: "\<And>gk. fst (get_random_sample rng pdf gk) = Inr (PNum 0)"
    using assms(3) by (simp add: get_random_sample_degraded)
  have r: "refresh_bov rng pdfs bov g = (True, ?b, snd (snd (refresh_bov rng pdfs bov g)))"
    by (simp add: refresh_bov_eq)
  have k: "map_of ?b k = Some (PNum 0)"
    using assms(1,2) z by (rule refresh_bov_zero)
  have keys: "dict_keys ?b = dict_keys bov" by (rule refresh_bov_keys)
  have rest: "\<forall>k' pdf'. k' \<in> set (dict_keys bov) \<and> map_of pdfs k' = Some pdf' \<longrightarrow>
                 (\<exists>gk v. fst (get_random_sample rng pdf' gk) = Inr v \<and> map_of ?b k' = Some v)"
  proof (intro allI impI)
    fix k' pdf' assume "k' \<in> set (dict_keys bov) \<and> map_of pdfs k' = Some pdf'"
    then show "\<exists>gk v. fst (get_random_sample rng pdf' gk) = Inr v \<and> map_of ?b k' = Some v"
      using refresh_bov_sampled[of k' bov pdfs pdf' rng g] by blast
  qed
  show ?thesis using r k keys rest by blast
qed

theorem refresh_bov_swallows_witness:
  "''a'' \<in> set (dict_keys [(''a'', PNum 5), (''b'', PNum 7)])
   \<and> map_of [(''a'', unknown_pdf), (''b'', uniform_pdf)] ''a'' = Some unknown_pdf
   \<and> (\<exists>bov' g'. refresh_bov counter_rng [(''a'', unknown_pdf), (''b'', uniform_pdf)]
          [(''a'', PNum 5), (''b'', PNum 7)] 3 = (True, bov', g')
        \<and> map_of bov' ''a'' = Some (PNum 0)
        \<and> dict_keys bov' = dict_keys [(''a'', PNum 5), (''b'', PNum 7)])"
proof -
  have h1: "''a'' \<in> set (dict_keys [(''a'', PNum 5), (''b'', PNum 7)])"
    by (simp add: dict_keys_def)
  have h2: "map_of [(''a'', unknown_pdf), (''b'', uniform_pdf)] ''a'' = Some unknown_pdf"
    by simp
  have h3: "\<forall>gk. isl (fst (get_random_sample_try counter_rng unknown_pdf gk))"
    by (simp add: try_unknown)
  show ?thesis using h1 h2 refresh_bov_swallows[OF h1 h2 h3, of 3] by blast
qed

section \<open>Claims about drawing a sample\<close>

lemma try_unregistered:
  assumes "\<forall>s. dict_get pdf ''name'' = PStr s \<longrightarrow> map_of (samplers :: 'g sampler pydict) s = None"
  shows "isl (fst (get_random_sample_try (rng :: 'g generator) pdf g))
       \<and> snd (get_random_sample_try rng pdf g) = g"
  using assms by (cases "dict_get pdf ''name''") (auto simp: get_random_sample_try_def)

text \<open>
  Claim C4. For a distribution whose family name is missing, is not a string or has no
  sampler in the registry, \<open>get_random_sample\<close> does not raise: it returns 0 and leaves
  the generator as it was. The refresh that meets such a distribution reports \<^verbatim>\<open>True\<close>
  with 0 in the bag, and the run goes on: the only exceptions that leave \<open>simulate\<close> are
  those of the formula evaluator.
\<close>

theorem unknown_family_degraded:
  assumes "\<forall>s. dict_get pdf ''name'' = PStr s \<longrightarrow> map_of (samplers :: 'g sampler pydict) s = None"
    and "k \<in> set (dict_keys bov)" "map_of pdfs k = Some pdf"
  shows "get_random_sample (rng :: 'g generator) pdf g = (Inr (PNum 0), g)
       \<and> (\<exists>bov' g'. refresh_bov rng pdfs bov g = (True, bov', g') \<and> map_of bov' k = Some (PNum 0))
       \<and> (\<forall>e. simulate rng ev te bov pdfs n g = Inl e \<longrightarrow>
             (\<exists>i<nat n. ev te (globals_at rng pdfs bov g i) = Inl e))"
proof -
  have s: "get_random_sample rng pdf gk = (Inr (PNum 0), gk)" for gk
    using try_unregistered[OF assms(1), of rng gk] by (simp add: get_random_sample_degraded)
  have k: "map_of (fst (snd (refresh_bov rng pdfs bov g))) k = Some (PNum 0)"
    using assms(2,3) by (rule refresh_bov_zero) (simp add: s)
  have r: "\<exists>bov' g'. refresh_bov rng pdfs bov g = (True, bov', g') \<and> map_of bov' k = Some (PNum 0)"
    using k refresh_bov_collapse[of rng pdfs bov g] by blast
  have run: "\<exists>i<nat n. ev te (globals_at rng pdfs bov g i) = Inl e"
    if "simulate rng ev te bov pdfs n g = Inl e" for e
  proof -
    from that have "simulate_loop rng ev te pdfs (nat n) bov g [] = Inl e"
      by (auto simp: simulate_def split: sum.splits)
    then show ?thesis by (rule simulate_loop_raises)
  qed
  show ?thesis using s r run by blast
qed

theorem unknown_family_degraded_witness:
  "(\<exists>bov' g'. refresh_bov counter_rng [(''a'', unknown_pdf)] [(''a'', PNum 5)] (3::nat) = (True, bov', g')
        \<and> map_of bov' ''a'' = Some (PNum 0))
   \<and> get_random_sample counter_rng unknown_pdf 3 = (Inr (PNum 0), 3)"
proof -
  have h1: "\<forall>s. dict_get unknown_pdf ''name'' = PStr s \<longrightarrow> map_of (samplers :: nat sampler pydict) s = None"
    by (simp add: unknown_pdf_def dict_get_def samplers_def)
  have h2: "''a'' \<in> set (dict_keys [(''a'', PNum 5)])"
    by (simp add: dict_keys_def)
  have h3: "map_of [(''a'', unknown_pdf)] ''a'' = Some unknown_pdf"
    by simp
  show ?thesis
    using unknown_family_degraded[OF h1 h2 h3, where rng = counter_rng and g = 3
        and ev = eval_formula and te = "Const 1" and n = 1]
    by blast
qed

text \<open>
  Claim C6 asks that a poisson distribution with its \<open>lambda\<close> and a wald distribution
  with its \<open>mean\<close> and \<open>scale\<close> yield a draw from that law. They never do: both samplers
  pass their first parameter under the keyword \<^verbatim>\<open>loc\<close>, which neither
  \<^verbatim>\<open>Generator.poisson(lam, size)\<close> nor \<^verbatim>\<open>Generator.wald(mean, scale, size)\<close> has, so the call
  is a \<^verbatim>\<open>TypeError\<close> before the generator is asked for anything, and \<open>get_random_sample\<close>
  returns 0 whatever the generator.
\<close>

theorem poisson_wald_degraded:
  "get_random_sample rng [(''name'', PStr ''poisson''), (''lambda'', PNum 3)] g = (Inr (PNum 0), g)
   \<and> get_random_sample rng [(''name'', PStr ''wald''), (''mean'', PNum 1), (''scale'', PNum 2)] g
       = (Inr (PNum 0), g)"
  by (simp add: get_random_sample_def get_random_sample_try_def dict_get_def samplers_def
      random_sampler_poisson_def random_sampler_wald_def rng_call_def np_signature_def
      dict_keys_def)

lemma poisson_try_raises:
  "dict_get pdf ''name'' = PStr ''poisson'' \<Longrightarrow> get_random_sample_try rng pdf g = (Inl TypeError, g)"
  by (simp add: get_random_sample_try_def samplers_def
      random_sampler_poisson_def rng_call_def np_signature_def dict_keys_def)

lemma wald_try_raises:
  "dict_get pdf ''name'' = PStr ''wald'' \<Longrightarrow> get_random_sample_try rng pdf g = (Inl TypeError, g)"
  by (simp add: get_random_sample_try_def samplers_def
      random_sampler_wald_def rng_call_def np_signature_def dict_keys_def)

lemma try_missing_param:
  assumes lib: "\<forall>method args g.
             list_ex (\<lambda>a. a = Some PNone) (butlast args) \<longrightarrow> isl (fst (rng method args g))"
    and "dict_get pdf ''name'' = PStr family"
    and "map_of required_params family = Some ps" "p \<in> set ps" "dict_get pdf p = PNone"
  shows "isl (fst (get_random_sample_try rng pdf g))"
proof -
  have r: "isl (fst (rng m xs st))" if "list_ex (\<lambda>a. a = Some PNone) (butlast xs)" for m xs st
    using lib that by blast
  from assms(3,4) consider
      "family = ''normal''" "p = ''mean'' \<or> p = ''sd''"
    | "family = ''wald''"
    | "family = ''poisson''"
    | "family = ''binomial''" "p = ''numtrials'' \<or> p = ''probsuccess''"
    | "family = ''uniform''" "p = ''low'' \<or> p = ''high''"
    | "family = ''chisquare''" "p = ''degfreedom''"
    | "family = ''weibull''" "p = ''shape''"
    | "family = ''gamma''" "p = ''shape'' \<or> p = ''scale''"
    | "family = ''lognormal''" "p = ''mean'' \<or> p = ''sigma''"
    | "family = ''exponential''" "p = ''scale''"
    | "family = ''pareto''" "p = ''shape''"
    by (auto simp: required_params_def split: if_splits)
  then show ?thesis
  proof cases
    case 1
    then show ?thesis using assms(2,5)
      by (auto simp: get_random_sample_try_def samplers_def random_sampler_normal_def
          rng_call_def np_signature_def dict_keys_def intro!: r)
  next
    case 2
    then show ?thesis using assms(2) by (simp add: wald_try_raises)
  next
    case 3
    then show ?thesis using assms(2) by (simp add: poisson_try_raises)
  next
    case 4
    then show ?thesis using assms(2,5)
      by (auto simp: get_random_sample_try_def samplers_def random_sampler_binomial_def
          rng_call_def np_signature_def dict_keys_def intro!: r)
  next
    case 5
    then show ?thesis using assms(2,5)
      by (auto simp: get_random_sample_try_def samplers_def random_sampler_uniform_def
          rng_call_def np_signature_def dict_keys_def intro!: r)
  next
    case 6
    then show ?thesis using assms(2,5)
      by (auto simp: get_random_sample_try_def samplers_def random_sampler_chisquare_def
          rng_call_def np_signature_def dict_keys_def intro!: r)
  next
    case 7
    then show ?thesis using assms(2,5)
      by (auto simp: get_random_sample_try_def samplers_def random_sampler_weibull_def
          rng_call_def np_signature_def dict_keys_def intro!: r)
  next
    case 8
    then show ?thesis using assms(2,5)
      by (auto simp: get_random_sample_try_def samplers_def random_sampler_gamma_def
          rng_call_def np_signature_def dict_keys_def intro!: r)
  next
    case 9
    then show ?thesis using assms(2,5)
      by (auto simp: get_random_sample_try_def samplers_def random_sampler_lognormal_def
          rng_call_def np_signature_def dict_keys_def intro!: r)
  next
    case 10
    then show ?thesis using assms(2,5)
      by (auto simp: get_random_sample_try_def samplers_def random_sampler_exponential_def
          rng_call_def np_signature_def dict_keys_def intro!: r)
  next
    case 11
    then show ?thesis using assms(2,5)
      by (auto simp: get_random_sample_try_def samplers_def random_sampler_pareto_def
          rng_call_def np_signature_def dict_keys_def intro!: r)
  qed
qed


text \<open>
  Claim C10. Let the generator reject a call in which a distribution parameter is
  \<^verbatim>\<open>None\<close> (what \<^verbatim>\<open>pdf.get\<close> returns for a key that the distribution omits). Then for a
  distribution of a registered family that omits a parameter the family requires,
  \<open>get_random_sample\<close> does not raise and returns 0, the same value as for an unknown
  family; the refresh that meets it reports \<^verbatim>\<open>True\<close> and leaves 0 in the bag.
\<close>

theorem missing_parameter_degraded:
  assumes "\<forall>method args g.
             list_ex (\<lambda>a. a = Some PNone) (butlast args) \<longrightarrow> isl (fst (rng method args g))"
    and "dict_get pdf ''name'' = PStr family"
    and "map_of required_params family = Some ps" "p \<in> set ps" "dict_get pdf p = PNone"
    and "k \<in> set (dict_keys bov)" "map_of pdfs k = Some pdf"
  shows "fst (get_random_sample rng pdf g) = Inr (PNum 0)
       \<and> fst (get_random_sample rng pdf g) = fst (get_random_sample rng unknown_pdf g)
       \<and> (\<exists>bov' g'. refresh_bov rng pdfs bov g = (True, bov', g') \<and> map_of bov' k = Some (PNum 0))"
proof -
  have s: "fst (get_random_sample rng pdf gk) = Inr (PNum 0)" for gk
    using try_missing_param[OF assms(1-5), of gk] by (simp add: get_random_sample_degraded)
  have "map_of (fst (snd (refresh_bov rng pdfs bov g))) k = Some (PNum 0)"
    using assms(6,7) s by (rule refresh_bov_zero)
  then have "\<exists>bov' g'. refresh_bov rng pdfs bov g = (True, bov', g')
      \<and> map_of bov' k = Some (PNum 0)"
    using refresh_bov_collapse[of rng pdfs bov g] by blast
  then show ?thesis using s by (simp add: sample_unknown)
qed

theorem missing_parameter_degraded_witness:
  "get_random_sample strict_rng [(''name'', PStr ''normal''), (''mean'', PNum 1), (''sd'', PNum 0)] 3
     = (Inr (PNum 3), 5)
   \<and> fst (get_random_sample strict_rng [(''name'', PStr ''normal''), (''mean'', PNum 1)] 3)
     = Inr (PNum 0)
   \<and> (\<exists>bov' g'. refresh_bov strict_rng [(''a'', [(''name'', PStr ''normal''), (''mean'', PNum 1)])]
          [(''a'', PNum 5)] 3 = (True, bov', g')
        \<and> map_of bov' ''a'' = Some (PNum 0))"
proof -
  let ?pdf = "[(''name'', PStr ''normal''), (''mean'', PNum 1)]"
  have h1: "\<forall>method args g.
      list_ex (\<lambda>a. a = Some PNone) (butlast args) \<longrightarrow> isl (fst (strict_rng method args g))"
    by (simp add: strict_rng_def)
  have h2: "dict_get ?pdf ''name'' = PStr ''normal''"
    by (simp add: dict_get_def)
  have h3: "map_of required_params ''normal'' = Some [''mean'', ''sd'']"
    by (simp add: required_params_def)
  have h4: "''sd'' \<in> set [''mean'', ''sd'']"
    by simp
  have h5: "dict_get ?pdf ''sd'' = PNone"
    by (simp add: dict_get_def)
  have h6: "''a'' \<in> set (dict_keys [(''a'', PNum 5)])"
    by (simp add: dict_keys_def)
  have h7: "map_of [(''a'', ?pdf)] ''a'' = Some ?pdf"
    by simp
  have full: "get_random_sample strict_rng
      [(''name'', PStr ''normal''), (''mean'', PNum 1), (''sd'', PNum 0)] 3 = (Inr (PNum 3), 5)"
    by (simp add: get_random_sample_def get_random_sample_try_def dict_get_def samplers_def
        random_sampler_normal_def rng_call_def np_signature_def dict_keys_def strict_rng_def)
  show ?thesis
    using full missing_parameter_degraded[OF h1 h2 h3 h4 h5 h6 h7, of 3] by blast
qed

section \<open>Keys of the bag along a run, and an example run\<close>






lemma example_iteration_first:
  "iteration counter_rng [(''x'', uniform_pdf)] ([(''x'', PNum v)], g)
     = ([(''x'', PNum (real g)), (''__builtins__'', PBuiltins)], g + 2)"
  by (simp add: iteration_def refresh_bov_def dict_keys_def dict_set_def sample_uniform_counter
      eval_globals_def)






lemma example_globals_0:
  "globals_at counter_rng [(''x'', uniform_pdf)] [(''x'', PNum v)] g 0
     = [(''x'', PNum (real g)), (''__builtins__'', PBuiltins)]"
  by (simp add: globals_at_0 example_iteration_first)

lemma example_globals_first:
  "globals_at counter_rng [(''x'', uniform_pdf)] [(''x'', PNum 0)] 3 0
     = [(''x'', PNum 3), (''__builtins__'', PBuiltins)]"
  using example_globals_0[of 0 3] by simp


section \<open>Claims about the simulation loop\<close>





text \<open>
  Claim C8. If the evaluator raises in some iteration of the run, \<open>simulate\<close> returns no
  result: it raises the exception of the first iteration in which the evaluator fails.
\<close>

theorem simulate_eval_failure:
  assumes "i < nat num_iterations" "isl (ev te (globals_at rng pdfs bov g i))"
  shows "\<exists>j e. j \<le> i \<and> ev te (globals_at rng pdfs bov g j) = Inl e
             \<and> simulate rng ev te bov pdfs num_iterations g = Inl e"
proof -
  obtain j e where j: "j \<le> i" "ev te (globals_at rng pdfs bov g j) = Inl e"
    "\<And>j'. j' < j \<Longrightarrow> \<not> isl (ev te (globals_at rng pdfs bov g j'))"
    using first_failure[of ev te rng pdfs bov g i] assms(2) by blast
  have "j < nat num_iterations" using j(1) assms(1) by simp
  then have "simulate_loop rng ev te pdfs (nat num_iterations) bov g [] = Inl e"
    using j(2,3) by (rule simulate_loop_fail)
  then have "simulate rng ev te bov pdfs num_iterations g = Inl e"
    by (simp add: simulate_def)
  with j show ?thesis by blast
qed

theorem simulate_eval_failure_witness:
  "simulate counter_rng eval_formula (Name ''y'') [(''x'', PNum 0)] [(''x'', uniform_pdf)] 3 3
     = Inl NameError"
proof -
  have g0: "eval_formula (Name ''y'')
      (globals_at counter_rng [(''x'', uniform_pdf)] [(''x'', PNum 0)] 3 0) = Inl NameError"
    by (simp add: example_globals_first)
  have h1: "0 < nat 3" by simp
  have h2: "isl (eval_formula (Name ''y'')
      (globals_at counter_rng [(''x'', uniform_pdf)] [(''x'', PNum 0)] 3 0))"
    by (simp only: g0) simp
  show ?thesis
    using g0 simulate_eval_failure[where i = 0 and num_iterations = 3 and ev = eval_formula
        and te = "Name ''y''" and rng = counter_rng and pdfs = "[(''x'', uniform_pdf)]"
        and bov = "[(''x'', PNum 0)]" and g = 3, OF h1 h2]
    by auto
qed








end
